theory Spec2Isabelle
  imports Main "HOL-Library.Multiset" "HOL-Library.AList"
begin

section \<open>Dates and the clock\<close>

text \<open>
  The application reads the clock with \<^verbatim>\<open>new Date()\<close> and handles calendar days as
  strings of the form YYYY-MM-DD. The embedding represents
  \<^item> an instant by its number of milliseconds since the epoch (UTC), as the JavaScript
    \<^verbatim>\<open>Date\<close> does internally;
  \<^item> a YYYY-MM-DD string by the number of its calendar day, counted from 1970-01-01
    (day 0); the correspondence between such strings and day numbers is one to one;
  \<^item> the device's time zone by its offset from UTC in milliseconds (local time is UTC
    plus the offset), together with the offset that was in force at the same local time
    seven days earlier; the two differ when a daylight-saving transition lies in between.
    The second offset is used where the source moves the current instant back by seven
    calendar days; dates are otherwise read with the first.
  Every function that reads the clock in the source takes the clock as an argument here.
\<close>

type_synonym instant = int
type_synonym date_str = int

record clock =
  now :: instant
  utcOffset :: int
  utcOffsetWeekAgo :: int

definition msPerDay :: int where
  "msPerDay = 1000 * 60 * 60 * 24"

definition msPerHour :: int where
  "msPerHour = 1000 * 60 * 60"

text \<open>\<^verbatim>\<open>new Date(s + 'T00:00:00')\<close>: a date-time form without offset is local time.\<close>

definition parseLocalMidnight :: "clock \<Rightarrow> date_str \<Rightarrow> instant" where
  "parseLocalMidnight clk d = d * msPerDay - utcOffset clk"

text \<open>\<^verbatim>\<open>new Date(s)\<close> for a date-only string: ECMAScript reads it as UTC midnight.\<close>

definition parseDateOnly :: "date_str \<Rightarrow> instant" where
  "parseDateOnly d = d * msPerDay"

text \<open>The number of the local calendar day an instant falls on.\<close>

definition localDay :: "clock \<Rightarrow> instant \<Rightarrow> int" where
  "localDay clk t = (t + utcOffset clk) div msPerDay"

text \<open>\<^verbatim>\<open>d.setHours(0, 0, 0, 0)\<close>: the local midnight that starts the day of \<open>t\<close>.\<close>

definition setHoursZero :: "clock \<Rightarrow> instant \<Rightarrow> instant" where
  "setHoursZero clk t = localDay clk t * msPerDay - utcOffset clk"

text \<open>\<^verbatim>\<open>d.getDay()\<close>: 0 is Sunday; 1970-01-01 was a Thursday.\<close>

definition getDay :: "clock \<Rightarrow> instant \<Rightarrow> int" where
  "getDay clk t = (localDay clk t + 4) mod 7"

text \<open>\<^verbatim>\<open>Math.ceil(a / b)\<close> for integers \<open>a\<close> and a positive \<open>b\<close>.\<close>

definition mathCeilDiv :: "int \<Rightarrow> int \<Rightarrow> int" where
  "mathCeilDiv a b = - ((- a) div b)"

text \<open>
  Modelled from the spec: \<^verbatim>\<open>formatDateToString\<close> is called by \<^verbatim>\<open>app.js\<close> but defined in
  a file that is not part of the sources at hand. The spec and the comment on
  \<^verbatim>\<open>getTodayString\<close> say that it yields the date in the form YYYY-MM-DD; it is taken to
  format the local calendar day of the instant.
\<close>

definition formatDateToString :: "clock \<Rightarrow> instant \<Rightarrow> date_str" where
  "formatDateToString clk t = localDay clk t"

definition getTodayString :: "clock \<Rightarrow> date_str" where
  "getTodayString clk = formatDateToString clk (now clk)"

definition getDaysRemaining :: "clock \<Rightarrow> date_str \<Rightarrow> int" where
  "getDaysRemaining clk dateStr =
     (let today = setHoursZero clk (now clk);
          target = parseLocalMidnight clk dateStr;
          diff = target - today
      in mathCeilDiv diff (1000 * 60 * 60 * 24))"

section \<open>Countdown display\<close>

text \<open>
  The two display functions return an object with a CSS class and display texts. The
  class names are kept as strings; the Japanese display texts are represented by
  constructors: \<open>Expired\<close> (the text for a passed deadline), \<open>DueToday\<close> (the text for
  today) and \<open>DaysLeft n\<close> (the template with the number of days left).
\<close>

datatype countdown_text = Expired | DueToday | DaysLeft int

record countdown =
  cdText :: countdown_text
  cdClass :: string

definition getCountdownDisplay :: "int \<Rightarrow> countdown" where
  "getCountdownDisplay days =
     (if days < 0 then \<lparr>cdText = Expired, cdClass = ''countdown-overdue''\<rparr>
      else if days = 0 then \<lparr>cdText = DueToday, cdClass = ''countdown-today''\<rparr>
      else if days \<le> 3 then \<lparr>cdText = DaysLeft days, cdClass = ''countdown-urgent''\<rparr>
      else \<lparr>cdText = DaysLeft days, cdClass = ''countdown-normal''\<rparr>)"

text \<open>
  The second display function returns a number (or an exclamation mark), a label and the
  class: \<open>LabelOver\<close> is the label for days overdue, \<open>LabelToday\<close> the one for today,
  \<open>LabelLater\<close> the one for days to go.
\<close>

datatype countdown_number = Num int | Bang

datatype countdown_label = LabelOver | LabelToday | LabelLater

record countdown_new =
  cdNumber :: countdown_number
  cdLabel :: countdown_label
  cdClassNew :: string

definition getCountdownDisplayNew :: "int \<Rightarrow> countdown_new" where
  "getCountdownDisplayNew days =
     (if days < 0 then
        \<lparr>cdNumber = Num (abs days), cdLabel = LabelOver, cdClassNew = ''countdown-overdue''\<rparr>
      else if days = 0 then
        \<lparr>cdNumber = Bang, cdLabel = LabelToday, cdClassNew = ''countdown-today''\<rparr>
      else if days \<le> 3 then
        \<lparr>cdNumber = Num days, cdLabel = LabelLater, cdClassNew = ''countdown-urgent''\<rparr>
      else
        \<lparr>cdNumber = Num days, cdLabel = LabelLater, cdClassNew = ''countdown-normal''\<rparr>)"

section \<open>Stored collections\<close>

text \<open>
  Each collection lives under one key of \<^verbatim>\<open>localStorage\<close>. What \<^verbatim>\<open>getItem\<close> followed by
  \<^verbatim>\<open>JSON.parse\<close> can give is one of three things: no item under the key, an item that
  cannot be used (\<^verbatim>\<open>JSON.parse\<close> throws, or the value is not of the expected shape and
  reading it throws), or the parsed value. Every such exception is caught by the
  \<^verbatim>\<open>try\<close> block around the read.
\<close>

datatype 'a item = NoItem | Unparsable | Parsed 'a

record schedule =
  sid :: string
  stitle :: string
  sdate :: date_str
  smemo :: string

record routine =
  rid :: string
  rtitle :: string
  frequency :: string
  weekdays :: "int list"
  enabled :: bool

record todo =
  tid :: string
  ttext :: string
  completed :: bool
  createdAt :: instant

text \<open>
  The completion log is a JSON object from date keys to arrays of routine ids. It is kept
  as an association list in the order of its keys: assigning to a key that exists replaces
  its value in place, assigning to a new key appends it, as for a JavaScript object with
  string keys.
\<close>

type_synonym checks = "(date_str \<times> string list) list"

record storage =
  schedulesItem :: "schedule list item"
  routinesItem :: "routine list item"
  todosItem :: "todo list item"
  routineChecksItem :: "checks item"

definition loadFromStorage :: "'a list item \<Rightarrow> 'a list" where
  "loadFromStorage data =
     (case data of NoItem \<Rightarrow> [] | Unparsable \<Rightarrow> [] | Parsed v \<Rightarrow> v)"

definition getSchedules :: "storage \<Rightarrow> schedule list" where
  "getSchedules st = loadFromStorage (schedulesItem st)"

definition getRoutines :: "storage \<Rightarrow> routine list" where
  "getRoutines st = loadFromStorage (routinesItem st)"

definition getTodos :: "storage \<Rightarrow> todo list" where
  "getTodos st = loadFromStorage (todosItem st)"

section \<open>The completion log\<close>

definition getRoutineChecks :: "clock \<Rightarrow> storage \<Rightarrow> string list" where
  "getRoutineChecks clk st =
     (let todayKey = getTodayString clk in
      case routineChecksItem st of
        Unparsable \<Rightarrow> []
      | NoItem \<Rightarrow> []
      | Parsed checks \<Rightarrow>
          (case map_of checks todayKey of None \<Rightarrow> [] | Some ids \<Rightarrow> ids))"

text \<open>
  \<^verbatim>\<open>weekAgo.setDate(weekAgo.getDate() - 7)\<close> keeps the local time of day of the current
  instant and moves its local date back by seven days; the result is the instant that
  shows this local time under the offset in force then.
\<close>

definition weekAgo :: "clock \<Rightarrow> instant" where
  "weekAgo clk = now clk + utcOffset clk - 7 * msPerDay - utcOffsetWeekAgo clk"

text \<open>
  Saving reads the log again, deletes every key whose date, read as a date-only string,
  lies before \<open>weekAgo\<close>, and then writes the ids under today's key with \<^verbatim>\<open>setItem\<close>.
  The whole body is inside one \<^verbatim>\<open>try\<close> block whose handler only logs: when the stored
  log cannot be read, or when \<^verbatim>\<open>setItem\<close> throws (the quota is exceeded, the storage is
  not available), nothing is written and the storage stays as it was. Whether this
  write goes through is the argument \<open>setItemOk\<close>.
\<close>

definition saveRoutineChecks :: "clock \<Rightarrow> bool \<Rightarrow> string list \<Rightarrow> storage \<Rightarrow> storage" where
  "saveRoutineChecks clk setItemOk checkedIds st =
     (let todayKey = getTodayString clk in
      case routineChecksItem st of
        Unparsable \<Rightarrow> st
      | data \<Rightarrow>
          (let checks = (case data of Parsed c \<Rightarrow> c | _ \<Rightarrow> []);
               checks1 = filter (\<lambda>(key, ids). \<not> parseDateOnly key < weekAgo clk) checks;
               checks2 = AList.update todayKey checkedIds checks1
           in if setItemOk then st\<lparr>routineChecksItem := Parsed checks2\<rparr> else st))"

text \<open>\<^verbatim>\<open>xs.indexOf(x)\<close>: the first position of \<open>x\<close>, or \<open>-1\<close>.\<close>

fun indexOf :: "'a list \<Rightarrow> 'a \<Rightarrow> int" where
  "indexOf [] x = - 1"
| "indexOf (y # ys) x =
     (if y = x then 0 else (let i = indexOf ys x in if i = - 1 then - 1 else i + 1))"

text \<open>\<^verbatim>\<open>xs.splice(i, 1)\<close> for an index inside the array: the array without position \<open>i\<close>.\<close>

definition splice1 :: "int \<Rightarrow> 'a list \<Rightarrow> 'a list" where
  "splice1 i xs = take (nat i) xs @ drop (nat i + 1) xs"

text \<open>
  The toggle ends by drawing today's routines and the dashboard again; neither writes to
  the storage, so the storage after the toggle is the one that the save leaves.
\<close>

definition toggleRoutineCheck :: "clock \<Rightarrow> bool \<Rightarrow> string \<Rightarrow> storage \<Rightarrow> storage" where
  "toggleRoutineCheck clk setItemOk ident st =
     (let checks = getRoutineChecks clk st;
          index = indexOf checks ident;
          checks' = (if index = - 1 then checks @ [ident] else splice1 index checks)
      in saveRoutineChecks clk setItemOk checks' st)"

section \<open>Routines due today\<close>

text \<open>The second filter of both routine listings, for the weekday \<open>dayOfWeek\<close>.\<close>

definition isDueOn :: "int \<Rightarrow> routine \<Rightarrow> bool" where
  "isDueOn dayOfWeek r =
     (if frequency r = ''daily'' then True
      else if frequency r = ''weekly'' \<and> dayOfWeek \<in> set (weekdays r) then True
      else False)"

record routine_row =
  rowRoutine :: routine
  isChecked :: bool

datatype today_view = TodayHidden | TodayRows "routine_row list"

definition renderTodayRoutines :: "clock \<Rightarrow> storage \<Rightarrow> today_view" where
  "renderTodayRoutines clk st =
     (let routines = getRoutines st;
          dayOfWeek = getDay clk (now clk);
          checks = getRoutineChecks clk st;
          todayRoutines = filter (isDueOn dayOfWeek) (filter enabled routines)
      in if length todayRoutines = 0 then TodayHidden
         else TodayRows (map (\<lambda>r. \<lparr>rowRoutine = r, isChecked = (rid r \<in> set checks)\<rparr>)
                          todayRoutines))"

section \<open>The dashboard\<close>

text \<open>
  The feed holds stored schedules and the objects that the dashboard derives from
  routines. The derived object has the fields \<^verbatim>\<open>id\<close>, \<^verbatim>\<open>title\<close>, \<^verbatim>\<open>type\<close>, \<^verbatim>\<open>date\<close> and
  \<^verbatim>\<open>isRoutine\<close>; a schedule has no \<^verbatim>\<open>isRoutine\<close> field, which reads as false.
\<close>

record occurrence =
  oid :: string
  otitle :: string
  otype :: string
  odate :: date_str
  oIsRoutine :: bool

datatype feed_item = ScheduleItem schedule | OccurrenceItem occurrence

fun itemDate :: "feed_item \<Rightarrow> date_str" where
  "itemDate (ScheduleItem s) = sdate s"
| "itemDate (OccurrenceItem oc) = odate oc"

fun isRoutine :: "feed_item \<Rightarrow> bool" where
  "isRoutine (ScheduleItem s) = False"
| "isRoutine (OccurrenceItem oc) = oIsRoutine oc"

definition toOccurrence :: "date_str \<Rightarrow> routine \<Rightarrow> occurrence" where
  "toOccurrence todayStr r =
     \<lparr>oid = ''routine_'' @ rid r, otitle = rtitle r, otype = ''routine'',
      odate = todayStr, oIsRoutine = True\<rparr>"

record stats =
  totalCount :: nat
  urgentCount :: nat
  overdueCount :: nat

definition updateStats :: "clock \<Rightarrow> schedule list \<Rightarrow> stats" where
  "updateStats clk schedules =
     \<lparr>totalCount = length schedules,
      urgentCount = length (filter (\<lambda>item.
         let days = getDaysRemaining clk (sdate item) in days \<ge> 0 \<and> days \<le> 3) schedules),
      overdueCount = length (filter (\<lambda>item.
         let days = getDaysRemaining clk (sdate item) in days < 0 \<and> days \<ge> - 14) schedules)\<rparr>"

record card =
  cardClass :: string
  cardCountdown :: countdown_new
  cardItem :: feed_item

datatype list_view = EmptyState | Cards "card list"

definition renderCard :: "clock \<Rightarrow> feed_item \<Rightarrow> card" where
  "renderCard clk item =
     (let days = getDaysRemaining clk (itemDate item);
          countdown = getCountdownDisplayNew days;
          cardClass = ''schedule-card'' @
            (if days < 0 then '' overdue''
             else if days = 0 then '' today''
             else if days \<le> 3 then '' urgent''
             else [])
      in \<lparr>cardClass = cardClass, cardCountdown = countdown, cardItem = item\<rparr>)"

record todo_row =
  rowClass :: string
  checkboxClass :: string
  rowTodo :: todo

datatype todo_section = SectionHidden | AllDone | TodoRows "todo_row list"

definition renderDashboardTodos :: "storage \<Rightarrow> todo_section" where
  "renderDashboardTodos st =
     (let todos = getTodos st;
          incompleteTodos = take 10 (filter (\<lambda>t. \<not> completed t) todos)
      in if length incompleteTodos = 0 \<and> length todos = 0 then SectionHidden
         else if length incompleteTodos = 0 then AllDone
         else TodoRows (map (\<lambda>t.
                \<lparr>rowClass = ''dashboard-todo-item '' @ (if completed t then ''completed'' else []),
                 checkboxClass = ''todo-checkbox '' @ (if completed t then ''checked'' else []),
                 rowTodo = t\<rparr>) incompleteTodos))"

text \<open>The to-do items that the dashboard section shows.\<close>

fun shownTodos :: "todo_section \<Rightarrow> todo list" where
  "shownTodos SectionHidden = []"
| "shownTodos AllDone = []"
| "shownTodos (TodoRows rows) = map rowTodo rows"

record schedule_list =
  listView :: list_view
  todoSection :: todo_section

definition renderScheduleList :: "clock \<Rightarrow> storage \<Rightarrow> feed_item list \<Rightarrow> schedule_list" where
  "renderScheduleList clk st items =
     \<lparr>listView = (if length items = 0 then EmptyState else Cards (map (renderCard clk) items)),
      todoSection = renderDashboardTodos st\<rparr>"

text \<open>
  The three local lists of \<^verbatim>\<open>updateDashboard\<close>. \<^verbatim>\<open>Array.prototype.sort\<close> is stable
  (ECMAScript 2019), and the comparison is the difference of the days remaining, so the
  sort is the stable sort by that key.
\<close>

definition todayRoutines :: "clock \<Rightarrow> storage \<Rightarrow> occurrence list" where
  "todayRoutines clk st =
     (let routines = getRoutines st;
          todayStr = getTodayString clk;
          dayOfWeek = getDay clk (now clk)
      in map (toOccurrence todayStr) (filter (isDueOn dayOfWeek) (filter enabled routines)))"

definition validSchedules :: "clock \<Rightarrow> storage \<Rightarrow> schedule list" where
  "validSchedules clk st =
     filter (\<lambda>s. getDaysRemaining clk (sdate s) \<ge> - 14) (getSchedules st)"

definition sortedItems :: "clock \<Rightarrow> storage \<Rightarrow> feed_item list" where
  "sortedItems clk st =
     (let allItems = map ScheduleItem (validSchedules clk st)
                       @ map OccurrenceItem (todayRoutines clk st)
      in sort_key (\<lambda>a. getDaysRemaining clk (itemDate a)) allItems)"

record dashboard =
  statsBar :: stats
  scheduleList :: schedule_list

text \<open>
  The dashboard update reads the storage and writes the page only. It returns the storage
  as it leaves it together with what it has drawn.
\<close>

definition updateDashboard :: "clock \<Rightarrow> storage \<Rightarrow> storage \<times> dashboard" where
  "updateDashboard clk st =
     (let schedules = getSchedules st;
          recentSchedules = filter (\<lambda>s. getDaysRemaining clk (sdate s) \<ge> - 14) schedules;
          statsBar = updateStats clk recentSchedules
      in (st, \<lparr>statsBar = statsBar,
               scheduleList = renderScheduleList clk st (sortedItems clk st)\<rparr>))"

text \<open>The feed items on the cards of a drawn list.\<close>

fun listedItems :: "list_view \<Rightarrow> feed_item list" where
  "listedItems EmptyState = []"
| "listedItems (Cards cs) = map cardItem cs"

text \<open>The routines on the rows of today's routine list, and the date keys of the log.\<close>

fun shownRoutines :: "today_view \<Rightarrow> routine list" where
  "shownRoutines TodayHidden = []"
| "shownRoutines (TodayRows rows) = map rowRoutine rows"


section \<open>Example data\<close>

text \<open>
  A device in a zone nine hours ahead of UTC, at ten o'clock in the morning of day 100
  (a Saturday), with schedules around that day, four routines and a completion log that
  reaches ten days back.
\<close>

definition exClock :: clock where
  "exClock = \<lparr>now = 100 * msPerDay + msPerHour, utcOffset = 9 * msPerHour,
               utcOffsetWeekAgo = 9 * msPerHour\<rparr>"

definition exToday :: schedule where
  "exToday = \<lparr>sid = ''s1'', stitle = ''report'', sdate = 100, smemo = []\<rparr>"

definition exSoon :: schedule where
  "exSoon = \<lparr>sid = ''s2'', stitle = ''exam'', sdate = 102, smemo = []\<rparr>"

definition exLongPast :: schedule where
  "exLongPast = \<lparr>sid = ''s3'', stitle = ''old'', sdate = 80, smemo = []\<rparr>"

definition exOverdue :: schedule where
  "exOverdue = \<lparr>sid = ''s4'', stitle = ''late'', sdate = 90, smemo = []\<rparr>"

definition exDaily :: routine where
  "exDaily = \<lparr>rid = ''r1'', rtitle = ''stretch'', frequency = ''daily'', weekdays = [],
              enabled = True\<rparr>"

definition exWeekly :: routine where
  "exWeekly = \<lparr>rid = ''r2'', rtitle = ''laundry'', frequency = ''weekly'', weekdays = [3, 6],
               enabled = True\<rparr>"

definition exDisabled :: routine where
  "exDisabled = \<lparr>rid = ''r3'', rtitle = ''run'', frequency = ''daily'', weekdays = [],
                 enabled = False\<rparr>"

definition exOtherDays :: routine where
  "exOtherDays = \<lparr>rid = ''r4'', rtitle = ''class'', frequency = ''weekly'',
                  weekdays = [1, 3, 5], enabled = True\<rparr>"

definition exChecks :: checks where
  "exChecks = [(90, [''r1'']), (92, [''r2'']), (93, [''r1'']), (94, []), (100, [''r1''])]"

definition exStorage :: storage where
  "exStorage =
     \<lparr>schedulesItem = Parsed [exSoon, exLongPast, exToday, exOverdue],
      routinesItem = Parsed [exDisabled, exDaily, exOtherDays, exWeekly],
      todosItem = NoItem,
      routineChecksItem = Parsed exChecks\<rparr>"

section \<open>The service worker\<close>

text \<open>
  The install handler of the service worker is a chain of promises. A promise is
  modelled by what it does once it settles: it is fulfilled with a value or rejected with
  an error, and it leaves the worker's caches changed or not. \<^verbatim>\<open>p.then(f)\<close> runs \<open>f\<close> on
  the value of a fulfilled \<open>p\<close> and passes a rejection of \<open>p\<close> on.

  The platform decides what the browser's own operations do: what the network answers
  for a URL, which URL cannot be stored, and whether cache storage can be opened. The
  operations follow the Cache interface: \<^verbatim>\<open>addAll\<close> fetches every request and
  rejects when a fetch ends in a network error (a response of type \<^verbatim>\<open>error\<close>), when
  the status of a response is outside 200 to 299 or is 206, or when a response has a
  \<^verbatim>\<open>Vary\<close> header with the value \<^verbatim>\<open>*\<close>; it stores either all responses or none.
\<close>

definition CACHE_NAME :: string where
  "CACHE_NAME = ''deadline-app-v1''"

definition ASSETS_TO_CACHE :: "string list" where
  "ASSETS_TO_CACHE =
     [''/'', ''/index.html'', ''/styles.css'', ''/app.js'', ''/holidays.js'',
      ''/manifest.json'', ''/icon-192.png'', ''/icon-512.png'']"

record response =
  status :: nat
  responseType :: string
  varyStar :: bool

datatype sw_error =
  CacheOpenError | NetworkError string | BadStatus string nat | VaryStar string
  | QuotaError string

record platform =
  network :: "string \<Rightarrow> response option"
  storable :: "string \<Rightarrow> bool"
  storageAvailable :: bool

type_synonym cache = "string \<rightharpoonup> response"

record worker =
  caches :: "string \<rightharpoonup> cache"
  skippedWaiting :: bool

datatype 'a outcome = Fulfilled 'a | Rejected sw_error

type_synonym 'a promise = "worker \<Rightarrow> 'a outcome \<times> worker"

definition thenP :: "'a promise \<Rightarrow> ('a \<Rightarrow> 'b promise) \<Rightarrow> 'b promise" where
  "thenP p f w =
     (case p w of
        (Fulfilled v, w') \<Rightarrow> f v w'
      | (Rejected e, w') \<Rightarrow> (Rejected e, w'))"

text \<open>\<^verbatim>\<open>caches.open(name)\<close> creates the cache when it does not exist yet.\<close>

definition cachesOpen :: "platform \<Rightarrow> string \<Rightarrow> string promise" where
  "cachesOpen pf name w =
     (if storageAvailable pf then
        (Fulfilled name,
         w\<lparr>caches := (caches w)(name \<mapsto> (case caches w name of None \<Rightarrow> Map.empty | Some c \<Rightarrow> c))\<rparr>)
      else (Rejected CacheOpenError, w))"

definition fetchAsset :: "platform \<Rightarrow> string \<Rightarrow> sw_error + response" where
  "fetchAsset pf url =
     (case network pf url of
        None \<Rightarrow> Inl (NetworkError url)
      | Some r \<Rightarrow>
          if responseType r = ''error'' then Inl (NetworkError url)
          else if \<not> (200 \<le> status r \<and> status r \<le> 299) \<or> status r = 206 then
            Inl (BadStatus url (status r))
          else if varyStar r then Inl (VaryStar url)
          else Inr r)"

fun fetchAll :: "platform \<Rightarrow> string list \<Rightarrow> sw_error + (string \<times> response) list" where
  "fetchAll pf [] = Inr []"
| "fetchAll pf (url # urls) =
     (case fetchAsset pf url of
        Inl e \<Rightarrow> Inl e
      | Inr r \<Rightarrow>
          (case fetchAll pf urls of
             Inl e \<Rightarrow> Inl e
           | Inr rs \<Rightarrow> Inr ((url, r) # rs)))"

fun putAll :: "platform \<Rightarrow> (string \<times> response) list \<Rightarrow> cache \<Rightarrow> sw_error + cache" where
  "putAll pf [] c = Inr c"
| "putAll pf ((url, r) # rs) c =
     (if storable pf url then putAll pf rs (c(url \<mapsto> r)) else Inl (QuotaError url))"

definition cacheAddAll :: "platform \<Rightarrow> string \<Rightarrow> string list \<Rightarrow> unit promise" where
  "cacheAddAll pf name urls w =
     (case fetchAll pf urls of
        Inl e \<Rightarrow> (Rejected e, w)
      | Inr rs \<Rightarrow>
          (case putAll pf rs (case caches w name of None \<Rightarrow> Map.empty | Some c \<Rightarrow> c) of
             Inl e \<Rightarrow> (Rejected e, w)
           | Inr c' \<Rightarrow> (Fulfilled (), w\<lparr>caches := (caches w)(name \<mapsto> c')\<rparr>)))"

definition skipWaiting :: "unit promise" where
  "skipWaiting w = (Fulfilled (), w\<lparr>skippedWaiting := True\<rparr>)"

text \<open>The promise that the install listener hands to \<^verbatim>\<open>event.waitUntil\<close>.\<close>

definition installPromise :: "platform \<Rightarrow> unit promise" where
  "installPromise pf =
     thenP (thenP (cachesOpen pf CACHE_NAME) (\<lambda>cache. cacheAddAll pf cache ASSETS_TO_CACHE))
       (\<lambda>_. skipWaiting)"

text \<open>
  \<^verbatim>\<open>event.waitUntil(p)\<close>: the installation succeeds when \<open>p\<close> is fulfilled and fails with the
  error of \<open>p\<close> when it is rejected.
\<close>

datatype install_result = Installed | InstallFailed sw_error

definition onInstall :: "platform \<Rightarrow> worker \<Rightarrow> install_result \<times> worker" where
  "onInstall pf w =
     (case installPromise pf w of
        (Fulfilled _, w') \<Rightarrow> (Installed, w')
      | (Rejected e, w') \<Rightarrow> (InstallFailed e, w'))"

definition cachedResponse :: "worker \<Rightarrow> string \<Rightarrow> string \<Rightarrow> response option" where
  "cachedResponse w name url = (case caches w name of None \<Rightarrow> None | Some c \<Rightarrow> c url)"

text \<open>
  A platform on which everything works, one on which one asset is missing, and one that
  answers for one asset with a partial response (status 206).
\<close>

definition exResponse :: response where
  "exResponse = \<lparr>status = 200, responseType = ''basic'', varyStar = False\<rparr>"

definition exOnline :: platform where
  "exOnline = \<lparr>network = (\<lambda>url. Some exResponse), storable = (\<lambda>url. True),
               storageAvailable = True\<rparr>"

definition exMissingAsset :: platform where
  "exMissingAsset =
     \<lparr>network = (\<lambda>url. if url = ''/holidays.js'' then None else Some exResponse),
      storable = (\<lambda>url. True), storageAvailable = True\<rparr>"

definition exPartialContent :: platform where
  "exPartialContent =
     \<lparr>network = (\<lambda>url. if url = ''/styles.css''
                         then Some \<lparr>status = 206, responseType = ''basic'', varyStar = False\<rparr>
                         else Some exResponse),
      storable = (\<lambda>url. True), storageAvailable = True\<rparr>"

definition exWorker :: worker where
  "exWorker = \<lparr>caches = Map.empty, skippedWaiting = False\<rparr>"

section \<open>Facts about the clock\<close>

lemma msPerDay_pos: "0 < msPerDay"
  by (simp add: msPerDay_def)

lemma mathCeilDiv_mult: "0 < b \<Longrightarrow> mathCeilDiv (k * b) b = k"
proof -
  assume b: "0 < b"
  have "(- (k * b)) div b = ((- k) * b) div b" by simp
  also have "\<dots> = - k" using b by (simp del: mult_minus_left)
  finally show ?thesis by (simp add: mathCeilDiv_def)
qed

lemma getDaysRemaining_eq: "getDaysRemaining clk d = d - localDay clk (now clk)"
proof -
  have diff: "parseLocalMidnight clk d - setHoursZero clk (now clk)
                = (d - localDay clk (now clk)) * msPerDay"
    by (simp add: parseLocalMidnight_def setHoursZero_def algebra_simps)
  have "getDaysRemaining clk d = mathCeilDiv ((d - localDay clk (now clk)) * msPerDay) msPerDay"
    by (simp add: getDaysRemaining_def Let_def diff msPerDay_def)
  then show ?thesis
    by (simp add: mathCeilDiv_mult msPerDay_pos)
qed

lemma getDaysRemaining_today: "getDaysRemaining clk (getTodayString clk) = 0"
  by (simp add: getDaysRemaining_eq getTodayString_def formatDateToString_def)

section \<open>Urgency classification\<close>

text \<open>
  Claim C3. For every integer number of days, each of the two display functions
  yields exactly one of four classes, and the classes cut the integers into four
  contiguous ranges: below zero is overdue, zero is today, one to three is urgent,
  above three is normal. The two functions give the same class on every input.
\<close>

theorem countdown_class_partition:
  "(cdClass (getCountdownDisplay days) = ''countdown-overdue'') = (days < 0)
   \<and> (cdClass (getCountdownDisplay days) = ''countdown-today'') = (days = 0)
   \<and> (cdClass (getCountdownDisplay days) = ''countdown-urgent'') = (0 < days \<and> days \<le> 3)
   \<and> (cdClass (getCountdownDisplay days) = ''countdown-normal'') = (3 < days)
   \<and> cdClassNew (getCountdownDisplayNew days) = cdClass (getCountdownDisplay days)"
  by (simp add: getCountdownDisplay_def getCountdownDisplayNew_def)

section \<open>What the dashboard draws\<close>

lemma listedItems_render:
  "listedItems (listView (renderScheduleList clk st items)) = items"
  by (cases items) (simp_all add: renderScheduleList_def renderCard_def Let_def comp_def)

lemma dashboard_listed:
  "listedItems (listView (scheduleList (snd (updateDashboard clk st)))) = sortedItems clk st"
  by (simp add: updateDashboard_def Let_def listedItems_render)

lemma isDueOn_iff:
  "isDueOn d r = (frequency r = ''daily'' \<or> (frequency r = ''weekly'' \<and> d \<in> set (weekdays r)))"
  by (simp add: isDueOn_def)

lemma shownRoutines_render:
  "shownRoutines (renderTodayRoutines clk st)
     = filter (isDueOn (getDay clk (now clk))) (filter enabled (getRoutines st))"
  by (simp add: renderTodayRoutines_def Let_def comp_def)

text \<open>
  Claim C8. For every stored routine list and every instant, a routine is on today's
  routine list if and only if it is stored, it is enabled, and it is daily or it is weekly
  with the weekday of the instant among its weekdays; so a disabled routine is never on
  it. The dashboard derives its routine occurrences from the same routines.
\<close>

theorem due_today_routines:
  "(r \<in> set (shownRoutines (renderTodayRoutines clk st))) =
     (r \<in> set (getRoutines st) \<and> enabled r \<and>
      (frequency r = ''daily'' \<or>
       (frequency r = ''weekly'' \<and> getDay clk (now clk) \<in> set (weekdays r))))
   \<and> todayRoutines clk st =
       map (toOccurrence (getTodayString clk)) (shownRoutines (renderTodayRoutines clk st))"
  by (auto simp add: shownRoutines_render isDueOn_iff todayRoutines_def Let_def)

section \<open>The to-do section of the dashboard\<close>

lemma shownTodos_section:
  "shownTodos (if length xs = 0 \<and> b then SectionHidden
               else if length xs = 0 then AllDone
               else TodoRows (map (\<lambda>t. \<lparr>rowClass = c t, checkboxClass = k t, rowTodo = t\<rparr>) xs))
     = xs"
  by (cases xs) (simp_all add: comp_def)

lemma shownTodos_render:
  "shownTodos (renderDashboardTodos st) = take 10 (filter (\<lambda>t. \<not> completed t) (getTodos st))"
  unfolding renderDashboardTodos_def Let_def by (rule shownTodos_section)

text \<open>
  Claim C10. The to-do section of the dashboard shows the first ten of the stored to-do
  items that are not completed, in stored order: no completed item is shown, at most ten
  are shown, and an incomplete item after the tenth is left out. The dashboard update
  draws this section.
\<close>

theorem dashboard_todos_first_ten:
  "shownTodos (renderDashboardTodos st) = take 10 (filter (\<lambda>t. \<not> completed t) (getTodos st))
   \<and> filter completed (shownTodos (renderDashboardTodos st)) = []
   \<and> length (shownTodos (renderDashboardTodos st)) \<le> 10
   \<and> todoSection (scheduleList (snd (updateDashboard clk st))) = renderDashboardTodos st"
proof -
  have "filter completed (take 10 (filter (\<lambda>t. \<not> completed t) (getTodos st))) = []"
    by (auto simp add: filter_empty_conv dest: in_set_takeD)
  then show ?thesis
    by (simp add: shownTodos_render updateDashboard_def renderScheduleList_def Let_def)
qed

section \<open>The visibility window\<close>

lemma filter_not_routine_sorted:
  "filter (\<lambda>x. \<not> isRoutine x) (map ScheduleItem xs @ map OccurrenceItem (map (toOccurrence d) ys))
     = map ScheduleItem xs"
  by (simp add: filter_map comp_def toOccurrence_def)

lemma mset_schedules_in_feed:
  "mset (filter (\<lambda>x. \<not> isRoutine x) (sortedItems clk st)) = mset (map ScheduleItem (validSchedules clk st))"
proof -
  have "mset (filter (\<lambda>x. \<not> isRoutine x) (sortedItems clk st))
        = filter_mset (\<lambda>x. \<not> isRoutine x) (mset (map ScheduleItem (validSchedules clk st)
             @ map OccurrenceItem (todayRoutines clk st)))"
    by (simp add: sortedItems_def Let_def del: mset_append mset_map)
  also have "\<dots> = mset (filter (\<lambda>x. \<not> isRoutine x) (map ScheduleItem (validSchedules clk st)
             @ map OccurrenceItem (todayRoutines clk st)))"
    by (simp only: mset_filter)
  also have "\<dots> = mset (map ScheduleItem (validSchedules clk st))"
    unfolding todayRoutines_def Let_def by (simp only: filter_not_routine_sorted)
  finally show ?thesis .
qed

text \<open>
  Claim C5. A stored schedule is on the drawn list if and only if its days remaining are
  at least \<open>-14\<close>, and the three counts count only such schedules: the total counts
  all of them, the urgent count those with zero to three days, the overdue count those
  past due. A schedule more than fourteen days overdue is on no card and in no count, and
  the update leaves the storage as it was.
\<close>

theorem visibility_window:
  "fst (updateDashboard clk st) = st
   \<and> (ScheduleItem s \<in> set (listedItems (listView (scheduleList (snd (updateDashboard clk st))))))
       = (s \<in> set (getSchedules st) \<and> getDaysRemaining clk (sdate s) \<ge> - 14)
   \<and> mset (filter (\<lambda>x. \<not> isRoutine x)
         (listedItems (listView (scheduleList (snd (updateDashboard clk st))))))
       = mset (map ScheduleItem
           (filter (\<lambda>s. getDaysRemaining clk (sdate s) \<ge> - 14) (getSchedules st)))
   \<and> totalCount (statsBar (snd (updateDashboard clk st)))
       = length (filter (\<lambda>s. getDaysRemaining clk (sdate s) \<ge> - 14) (getSchedules st))
   \<and> urgentCount (statsBar (snd (updateDashboard clk st)))
       = length (filter (\<lambda>s. getDaysRemaining clk (sdate s) \<ge> - 14
            \<and> 0 \<le> getDaysRemaining clk (sdate s) \<and> getDaysRemaining clk (sdate s) \<le> 3)
            (getSchedules st))
   \<and> overdueCount (statsBar (snd (updateDashboard clk st)))
       = length (filter (\<lambda>s. getDaysRemaining clk (sdate s) \<ge> - 14
            \<and> getDaysRemaining clk (sdate s) < 0) (getSchedules st))"
proof -
  have a: "fst (updateDashboard clk st) = st"
    by (simp add: updateDashboard_def Let_def)
  have b: "(ScheduleItem s \<in> set (sortedItems clk st))
       = (s \<in> set (getSchedules st) \<and> getDaysRemaining clk (sdate s) \<ge> - 14)"
    by (auto simp add: sortedItems_def Let_def validSchedules_def)
  have c: "mset (filter (\<lambda>x. \<not> isRoutine x) (sortedItems clk st))
       = mset (map ScheduleItem
           (filter (\<lambda>s. getDaysRemaining clk (sdate s) \<ge> - 14) (getSchedules st)))"
    using mset_schedules_in_feed [of clk st] by (simp only: validSchedules_def)
  have d: "statsBar (snd (updateDashboard clk st))
       = updateStats clk (filter (\<lambda>s. getDaysRemaining clk (sdate s) \<ge> - 14) (getSchedules st))"
    by (simp add: updateDashboard_def Let_def)
  have e: "totalCount (statsBar (snd (updateDashboard clk st)))
       = length (filter (\<lambda>s. getDaysRemaining clk (sdate s) \<ge> - 14) (getSchedules st))"
    by (simp add: d updateStats_def)
  have f: "urgentCount (statsBar (snd (updateDashboard clk st)))
       = length (filter (\<lambda>s. getDaysRemaining clk (sdate s) \<ge> - 14
            \<and> 0 \<le> getDaysRemaining clk (sdate s) \<and> getDaysRemaining clk (sdate s) \<le> 3)
            (getSchedules st))"
    by (simp add: d updateStats_def Let_def conj_commute conj_left_commute)
  have g: "overdueCount (statsBar (snd (updateDashboard clk st)))
       = length (filter (\<lambda>s. getDaysRemaining clk (sdate s) \<ge> - 14
            \<and> getDaysRemaining clk (sdate s) < 0) (getSchedules st))"
    by (simp add: d updateStats_def Let_def conj_commute conj_left_commute)
  show ?thesis
    by (simp only: dashboard_listed a b c e f g simp_thms)
qed

section \<open>Evaluating the example\<close>

lemma exClock_today: "getTodayString exClock = 100"
  by (simp add: getTodayString_def formatDateToString_def localDay_def exClock_def
        msPerDay_def msPerHour_def)

lemma exClock_localDay: "localDay exClock (now exClock) = 100"
  by (simp add: localDay_def exClock_def msPerDay_def msPerHour_def)

lemma exClock_getDay: "getDay exClock (now exClock) = 6"
  by (simp add: getDay_def exClock_localDay)

lemma exClock_days: "getDaysRemaining exClock d = d - 100"
  by (simp add: getDaysRemaining_eq exClock_localDay)

lemma ex_validSchedules: "validSchedules exClock exStorage = [exSoon, exToday, exOverdue]"
  by (simp add: validSchedules_def exClock_days exStorage_def getSchedules_def
        loadFromStorage_def exSoon_def exLongPast_def exToday_def exOverdue_def)

lemma ex_todayRoutines:
  "todayRoutines exClock exStorage = [toOccurrence 100 exDaily, toOccurrence 100 exWeekly]"
  by (simp add: todayRoutines_def Let_def exClock_today exClock_getDay exStorage_def
        getRoutines_def loadFromStorage_def isDueOn_def
        exDisabled_def exDaily_def exOtherDays_def exWeekly_def)

lemma ex_sortedItems:
  "sortedItems exClock exStorage =
     [ScheduleItem exOverdue, ScheduleItem exToday, OccurrenceItem (toOccurrence 100 exDaily),
      OccurrenceItem (toOccurrence 100 exWeekly), ScheduleItem exSoon]"
  by (simp add: sortedItems_def Let_def ex_validSchedules ex_todayRoutines exClock_days
        toOccurrence_def exSoon_def exToday_def exOverdue_def)

lemma ex_getRoutineChecks: "getRoutineChecks exClock exStorage = [''r1'']"
  by (simp add: getRoutineChecks_def exClock_today exStorage_def exChecks_def)

section \<open>The urgent count\<close>

lemma length_filter_disj:
  "(\<And>x. \<not> (P x \<and> Q x)) \<Longrightarrow>
   length (filter (\<lambda>x. P x \<or> Q x) xs) = length (filter P xs) + length (filter Q xs)"
  by (induction xs) auto

lemma statsBar_dashboard:
  "statsBar (snd (updateDashboard clk st)) = updateStats clk (validSchedules clk st)"
  by (simp add: updateDashboard_def Let_def validSchedules_def)

lemma cardClass_today:
  "(cardClass (renderCard clk item) = ''schedule-card today'')
     = (getDaysRemaining clk (itemDate item) = 0)"
  by (simp add: renderCard_def Let_def)

lemma cardClass_urgent:
  "(cardClass (renderCard clk item) = ''schedule-card urgent'')
     = (0 < getDaysRemaining clk (itemDate item) \<and> getDaysRemaining clk (itemDate item) \<le> 3)"
  by (simp add: renderCard_def Let_def)

text \<open>
  Claim C2, as the code has it. The urgent count of the summary counts exactly the
  visible schedules with zero to three days remaining. A schedule due today is counted
  in it: there is no count for today of its own, and the urgent count is the number of
  visible schedules whose card is styled as today plus the number of those whose card is
  styled as urgent.
\<close>

theorem urgent_count_counts_today:
  "urgentCount (statsBar (snd (updateDashboard clk st)))
     = length (filter (\<lambda>s. 0 \<le> getDaysRemaining clk (sdate s)
                          \<and> getDaysRemaining clk (sdate s) \<le> 3) (validSchedules clk st))
   \<and> urgentCount (statsBar (snd (updateDashboard clk st)))
     = length (filter (\<lambda>s. cardClass (renderCard clk (ScheduleItem s)) = ''schedule-card today'')
                 (validSchedules clk st))
       + length (filter (\<lambda>s. cardClass (renderCard clk (ScheduleItem s)) = ''schedule-card urgent'')
                 (validSchedules clk st))"
proof -
  let ?d = "\<lambda>s. getDaysRemaining clk (sdate s)"
  have u: "urgentCount (statsBar (snd (updateDashboard clk st)))
             = length (filter (\<lambda>s. 0 \<le> ?d s \<and> ?d s \<le> 3) (validSchedules clk st))"
    by (simp add: statsBar_dashboard updateStats_def Let_def)
  have "length (filter (\<lambda>s. 0 \<le> ?d s \<and> ?d s \<le> 3) (validSchedules clk st))
      = length (filter (\<lambda>s. ?d s = 0 \<or> (0 < ?d s \<and> ?d s \<le> 3)) (validSchedules clk st))"
    by (rule arg_cong [where f = length], rule filter_cong) auto
  also have "\<dots> = length (filter (\<lambda>s. ?d s = 0) (validSchedules clk st))
                 + length (filter (\<lambda>s. 0 < ?d s \<and> ?d s \<le> 3) (validSchedules clk st))"
    by (rule length_filter_disj) simp
  finally show ?thesis
    by (simp add: u cardClass_today cardClass_urgent)
qed

text \<open>
  Claim C2 as stated fails on the example: of the three visible schedules only one has
  between one and three days remaining, one is due today, and the urgent count is two.
\<close>

theorem urgent_count_counterexample:
  "validSchedules exClock exStorage = [exSoon, exToday, exOverdue]
   \<and> getDaysRemaining exClock (sdate exSoon) = 2
   \<and> getDaysRemaining exClock (sdate exToday) = 0
   \<and> getDaysRemaining exClock (sdate exOverdue) = - 10
   \<and> urgentCount (statsBar (snd (updateDashboard exClock exStorage))) = 2"
  by (simp add: ex_validSchedules statsBar_dashboard updateStats_def Let_def exClock_days
        exSoon_def exToday_def exOverdue_def)

section \<open>Routine occurrences in the feed\<close>

lemma occurrence_in_sortedItems:
  "(OccurrenceItem oc \<in> set (sortedItems clk st)) = (oc \<in> set (todayRoutines clk st))"
  by (auto simp add: sortedItems_def Let_def)

lemma sortedItems_ignores_log:
  "sortedItems clk (st\<lparr>routineChecksItem := log\<rparr>) = sortedItems clk st"
  by (simp add: sortedItems_def validSchedules_def todayRoutines_def getSchedules_def
        getRoutines_def)

text \<open>
  Claim C1, as the code has it. A derived routine occurrence is on the drawn feed if and
  only if it is derived, for today's date, from a stored routine that is enabled and due
  today (daily, or weekly with today's weekday among its weekdays). The completion log
  has no part in it: the drawn feed is the same whatever the log holds.
\<close>

theorem routine_occurrence_in_feed:
  "(OccurrenceItem oc \<in> set (listedItems (listView (scheduleList (snd (updateDashboard clk st))))))
     = (\<exists>r. r \<in> set (getRoutines st) \<and> enabled r \<and>
            (frequency r = ''daily'' \<or>
             (frequency r = ''weekly'' \<and> getDay clk (now clk) \<in> set (weekdays r))) \<and>
            oc = toOccurrence (getTodayString clk) r)
   \<and> listedItems (listView (scheduleList (snd (updateDashboard clk
         (st\<lparr>routineChecksItem := log\<rparr>)))))
     = listedItems (listView (scheduleList (snd (updateDashboard clk st))))"
  by (auto simp add: dashboard_listed occurrence_in_sortedItems sortedItems_ignores_log
        todayRoutines_def Let_def isDueOn_iff)

text \<open>
  Claim C1 as stated fails on the example: the daily routine is checked off for today
  and its occurrence is on the feed all the same.
\<close>

theorem checked_routine_in_feed_counterexample:
  "exDaily \<in> set (getRoutines exStorage)
   \<and> rid exDaily \<in> set (getRoutineChecks exClock exStorage)
   \<and> OccurrenceItem (toOccurrence (getTodayString exClock) exDaily)
       \<in> set (listedItems (listView (scheduleList (snd (updateDashboard exClock exStorage)))))"
proof -
  have a: "exDaily \<in> set (getRoutines exStorage)"
    by (simp add: exStorage_def getRoutines_def loadFromStorage_def)
  have b: "rid exDaily \<in> set (getRoutineChecks exClock exStorage)"
    by (simp add: ex_getRoutineChecks exDaily_def)
  have c: "OccurrenceItem (toOccurrence (getTodayString exClock) exDaily)
       \<in> set (listedItems (listView (scheduleList (snd (updateDashboard exClock exStorage)))))"
    by (simp add: dashboard_listed ex_sortedItems exClock_today)
  from a b c show ?thesis by simp
qed

section \<open>The order of the feed\<close>

lemma insort_key_ties:
  assumes "sorted_wrt (\<lambda>a b. f a \<le> f b \<and> (f a = f b \<and> r a \<longrightarrow> r b)) xs"
      and "r x \<Longrightarrow> list_all r xs"
  shows "sorted_wrt (\<lambda>a b. f a \<le> f b \<and> (f a = f b \<and> r a \<longrightarrow> r b)) (insort_key f x xs)"
  using assms
proof (induction xs)
  case Nil
  then show ?case by simp
next
  case (Cons y ys)
  show ?case
  proof (cases "f x \<le> f y")
    case True
    have "\<forall>z\<in>set (y # ys). f x \<le> f z \<and> (f x = f z \<and> r x \<longrightarrow> r z)"
      using True Cons.prems by (auto simp add: list_all_iff)
    then show ?thesis using True Cons.prems(1) by simp
  next
    case False
    have ih: "sorted_wrt (\<lambda>a b. f a \<le> f b \<and> (f a = f b \<and> r a \<longrightarrow> r b)) (insort_key f x ys)"
      using Cons.IH Cons.prems by simp
    have "\<forall>z\<in>set (insort_key f x ys). f y \<le> f z \<and> (f y = f z \<and> r y \<longrightarrow> r z)"
      using False Cons.prems(1) by (auto simp add: set_insort_key)
    then show ?thesis using False ih by simp
  qed
qed

lemma sort_key_all_routines:
  "list_all r ts \<Longrightarrow>
   sorted_wrt (\<lambda>a b. f a \<le> f b \<and> (f a = f b \<and> r a \<longrightarrow> r b)) (sort_key f ts)"
proof (induction ts)
  case Nil
  then show ?case by simp
next
  case (Cons t ts)
  then have "list_all r (sort_key f ts)" by (simp add: list_all_iff)
  with Cons show ?case by (simp add: insort_key_ties)
qed

lemma sort_key_schedules_first:
  "list_all (\<lambda>x. \<not> r x) ss \<Longrightarrow> list_all r ts \<Longrightarrow>
   sorted_wrt (\<lambda>a b. f a \<le> f b \<and> (f a = f b \<and> r a \<longrightarrow> r b)) (sort_key f (ss @ ts))"
proof (induction ss)
  case Nil
  then show ?case by (simp add: sort_key_all_routines)
next
  case (Cons s ss)
  then have rest: "sorted_wrt (\<lambda>a b. f a \<le> f b \<and> (f a = f b \<and> r a \<longrightarrow> r b))
               (sort_key f (ss @ ts))"
    and s: "\<not> r s"
    by simp_all
  have "sorted_wrt (\<lambda>a b. f a \<le> f b \<and> (f a = f b \<and> r a \<longrightarrow> r b))
               (insort_key f s (sort_key f (ss @ ts)))"
    using rest by (rule insort_key_ties) (simp add: s)
  then show ?case by simp
qed

text \<open>
  Claim C6. The drawn feed is in ascending order of days remaining, and of two feed items
  with the same days remaining a routine occurrence never stands before a schedule: the
  schedules come first, as in the list that was sorted.
\<close>

theorem feed_order:
  "sorted_wrt (\<lambda>a b. getDaysRemaining clk (itemDate a) \<le> getDaysRemaining clk (itemDate b)
       \<and> (getDaysRemaining clk (itemDate a) = getDaysRemaining clk (itemDate b) \<and> isRoutine a
            \<longrightarrow> isRoutine b))
     (listedItems (listView (scheduleList (snd (updateDashboard clk st)))))
   \<and> sorted (map (\<lambda>a. getDaysRemaining clk (itemDate a))
        (listedItems (listView (scheduleList (snd (updateDashboard clk st))))))"
proof -
  have s: "list_all (\<lambda>x. \<not> isRoutine x) (map ScheduleItem (validSchedules clk st))"
    by (simp add: list_all_iff)
  have t: "list_all isRoutine (map OccurrenceItem (todayRoutines clk st))"
    by (auto simp add: list_all_iff todayRoutines_def Let_def toOccurrence_def)
  have "sorted_wrt (\<lambda>a b. getDaysRemaining clk (itemDate a) \<le> getDaysRemaining clk (itemDate b)
       \<and> (getDaysRemaining clk (itemDate a) = getDaysRemaining clk (itemDate b) \<and> isRoutine a
            \<longrightarrow> isRoutine b)) (sortedItems clk st)"
    unfolding sortedItems_def Let_def by (rule sort_key_schedules_first [OF s t])
  moreover have "sorted (map (\<lambda>a. getDaysRemaining clk (itemDate a)) (sortedItems clk st))"
    by (simp add: sortedItems_def Let_def)
  ultimately show ?thesis by (simp only: dashboard_listed simp_thms)
qed

text \<open>
  On the example the feed has a schedule and two routine occurrences due today; the
  schedule stands before both occurrences.
\<close>

theorem feed_order_witness:
  "listedItems (listView (scheduleList (snd (updateDashboard exClock exStorage))))
     = [ScheduleItem exOverdue, ScheduleItem exToday, OccurrenceItem (toOccurrence 100 exDaily),
        OccurrenceItem (toOccurrence 100 exWeekly), ScheduleItem exSoon]
   \<and> sorted_wrt (\<lambda>a b. getDaysRemaining exClock (itemDate a) \<le> getDaysRemaining exClock (itemDate b)
       \<and> (getDaysRemaining exClock (itemDate a) = getDaysRemaining exClock (itemDate b) \<and> isRoutine a
            \<longrightarrow> isRoutine b))
     (listedItems (listView (scheduleList (snd (updateDashboard exClock exStorage)))))
   \<and> getDaysRemaining exClock (itemDate (ScheduleItem exToday)) = 0
   \<and> getDaysRemaining exClock (itemDate (OccurrenceItem (toOccurrence 100 exDaily))) = 0
   \<and> getDaysRemaining exClock (itemDate (OccurrenceItem (toOccurrence 100 exWeekly))) = 0
   \<and> isRoutine (OccurrenceItem (toOccurrence 100 exDaily))
   \<and> isRoutine (OccurrenceItem (toOccurrence 100 exWeekly))"
proof -
  have l: "listedItems (listView (scheduleList (snd (updateDashboard exClock exStorage))))
     = [ScheduleItem exOverdue, ScheduleItem exToday, OccurrenceItem (toOccurrence 100 exDaily),
        OccurrenceItem (toOccurrence 100 exWeekly), ScheduleItem exSoon]"
    by (simp only: dashboard_listed ex_sortedItems)
  have d: "getDaysRemaining exClock (itemDate (ScheduleItem exToday)) = 0
   \<and> getDaysRemaining exClock (itemDate (OccurrenceItem (toOccurrence 100 exDaily))) = 0
   \<and> getDaysRemaining exClock (itemDate (OccurrenceItem (toOccurrence 100 exWeekly))) = 0
   \<and> isRoutine (OccurrenceItem (toOccurrence 100 exDaily))
   \<and> isRoutine (OccurrenceItem (toOccurrence 100 exWeekly))"
    by (simp add: exClock_days toOccurrence_def exToday_def)
  from l d conjunct1 [OF feed_order [of exClock exStorage]] show ?thesis
    by blast
qed

section \<open>Saving the completion log\<close>



lemma save_failed_write: "saveRoutineChecks clk False ids st = st"
  by (cases "routineChecksItem st") (simp_all add: saveRoutineChecks_def Let_def)



lemma exClock_weekAgo: "weekAgo exClock = 8038800000"
  by (simp add: weekAgo_def exClock_def msPerDay_def msPerHour_def)




section \<open>Toggling a completion\<close>

lemma indexOf_range: "- 1 \<le> indexOf xs x"
  by (induction xs) (auto simp add: Let_def)

lemma indexOf_absent: "(indexOf xs x = - 1) = (x \<notin> set xs)"
proof (induction xs)
  case Nil
  show ?case by simp
next
  case (Cons y ys)
  have "- 1 \<le> indexOf ys x" by (rule indexOf_range)
  with Cons show ?case by (auto simp add: Let_def)
qed

lemma splice1_indexOf: "x \<in> set xs \<Longrightarrow> splice1 (indexOf xs x) xs = remove1 x xs"
proof (induction xs)
  case Nil
  then show ?case by simp
next
  case (Cons y ys)
  show ?case
  proof (cases "y = x")
    case True
    then show ?thesis by (simp add: splice1_def)
  next
    case False
    with Cons.prems have mem: "x \<in> set ys" by simp
    then have ne: "indexOf ys x \<noteq> - 1" by (simp add: indexOf_absent)
    with indexOf_range [of ys x] have pos: "0 \<le> indexOf ys x" by linarith
    then have n: "nat (indexOf ys x + 1) = Suc (nat (indexOf ys x))" by simp
    have "splice1 (indexOf ys x) ys = remove1 x ys" using mem by (rule Cons.IH)
    then show ?thesis
      using False ne by (simp add: splice1_def Let_def n)
  qed
qed

lemma toggleRoutineCheck_eq:
  "toggleRoutineCheck clk ok i st =
     saveRoutineChecks clk ok
       (if i \<in> set (getRoutineChecks clk st) then remove1 i (getRoutineChecks clk st)
        else getRoutineChecks clk st @ [i]) st"
  by (simp add: toggleRoutineCheck_def Let_def indexOf_absent splice1_indexOf)

lemma getRoutineChecks_save:
  assumes "routineChecksItem st \<noteq> Unparsable"
      and "getTodayString clk' = getTodayString clk"
  shows "getRoutineChecks clk' (saveRoutineChecks clk True ids st) = ids"
  using assms
  by (cases "routineChecksItem st")
     (simp_all add: getRoutineChecks_def saveRoutineChecks_def Let_def update_conv')

lemma save_parsable:
  "routineChecksItem st \<noteq> Unparsable \<Longrightarrow>
   routineChecksItem (saveRoutineChecks clk ok ids st) \<noteq> Unparsable"
  by (cases "routineChecksItem st") (simp_all add: saveRoutineChecks_def Let_def)

lemma remove1_single: "count_list xs x \<le> 1 \<Longrightarrow> x \<notin> set (remove1 x xs)"
proof (induction xs)
  case Nil
  then show ?case by simp
next
  case (Cons y ys)
  show ?case
  proof (cases "y = x")
    case True
    with Cons.prems have "count_list ys x = 0" by simp
    then have "x \<notin> set ys" by (metis count_list_0_iff)
    with True show ?thesis by simp
  next
    case False
    with Cons show ?thesis by simp
  qed
qed

text \<open>
  Claim C7, as the code has it. When the stored log is readable, the routine id is
  stored at most once for the day and the writes of both toggles go through, the first
  toggle flips the membership of the id in the day's completion list, and a second toggle
  on the same day gives back a completion list with the same ids as at the start (the
  toggled id may have moved to the end). The rest of the log is not given back: each
  toggle saves, and a save prunes old keys and writes the day's key. A toggle whose write
  fails leaves the storage as it was.
\<close>

theorem toggle_twice_restores_today:
  assumes "routineChecksItem st \<noteq> Unparsable"
      and "getTodayString clk2 = getTodayString clk1"
      and "count_list (getRoutineChecks clk1 st) i \<le> 1"
  shows "(i \<in> set (getRoutineChecks clk1 (toggleRoutineCheck clk1 True i st)))
           = (i \<notin> set (getRoutineChecks clk1 st))
         \<and> mset (getRoutineChecks clk2
               (toggleRoutineCheck clk2 True i (toggleRoutineCheck clk1 True i st)))
           = mset (getRoutineChecks clk1 st)
         \<and> toggleRoutineCheck clk1 False i st = st"
proof -
  let ?l0 = "getRoutineChecks clk1 st"
  let ?l1 = "if i \<in> set ?l0 then remove1 i ?l0 else ?l0 @ [i]"
  let ?st1 = "toggleRoutineCheck clk1 True i st"
  have st1: "?st1 = saveRoutineChecks clk1 True ?l1 st"
    by (rule toggleRoutineCheck_eq)
  have get1: "getRoutineChecks clk1 ?st1 = ?l1"
    unfolding st1 using assms(1) by (rule getRoutineChecks_save) simp
  have get1': "getRoutineChecks clk2 ?st1 = ?l1"
    unfolding st1 using assms(1) assms(2) by (rule getRoutineChecks_save)
  have ok1: "routineChecksItem ?st1 \<noteq> Unparsable"
    unfolding st1 using assms(1) by (rule save_parsable)
  have flip: "(i \<in> set ?l1) = (i \<notin> set ?l0)"
    using remove1_single [OF assms(3)] by simp
  let ?l2 = "if i \<in> set ?l1 then remove1 i ?l1 else ?l1 @ [i]"
  have "toggleRoutineCheck clk2 True i ?st1 = saveRoutineChecks clk2 True ?l2 ?st1"
    by (simp only: toggleRoutineCheck_eq [of clk2 True i "?st1"] get1')
  then have get2: "getRoutineChecks clk2 (toggleRoutineCheck clk2 True i ?st1) = ?l2"
    using getRoutineChecks_save [OF ok1, of clk2 clk2 "?l2"] by simp
  have same: "mset ?l2 = mset ?l0"
  proof (cases "i \<in> set ?l0")
    case True
    then have "?l2 = remove1 i ?l0 @ [i]"
      using remove1_single [OF assms(3)] by simp
    then show ?thesis using True by simp
  next
    case False
    then have "?l2 = remove1 i (?l0 @ [i])" by simp
    also have "\<dots> = ?l0" using False by (simp add: remove1_append remove1_idem)
    finally show ?thesis by simp
  qed
  have first: "(i \<in> set (getRoutineChecks clk1 ?st1)) = (i \<notin> set ?l0)"
    unfolding get1 by (rule flip)
  have second: "mset (getRoutineChecks clk2 (toggleRoutineCheck clk2 True i ?st1)) = mset ?l0"
    unfolding get2 by (rule same)
  have third: "toggleRoutineCheck clk1 False i st = st"
    by (simp only: toggleRoutineCheck_eq save_failed_write)
  from first second third show ?thesis by simp
qed

lemma ex_toggle_once:
  "routineChecksItem (toggleRoutineCheck exClock True ''r2'' exStorage)
     = Parsed [(94, []), (100, [''r1'', ''r2''])]"
  by (simp add: toggleRoutineCheck_eq ex_getRoutineChecks)
     (simp add: saveRoutineChecks_def Let_def exStorage_def exChecks_def
        exClock_today exClock_weekAgo parseDateOnly_def msPerDay_def)

lemma ex_toggle_twice:
  "routineChecksItem
     (toggleRoutineCheck exClock True ''r2'' (toggleRoutineCheck exClock True ''r2'' exStorage))
     = Parsed [(94, []), (100, [''r1''])]"
proof -
  have g: "getRoutineChecks exClock (toggleRoutineCheck exClock True ''r2'' exStorage)
             = [''r1'', ''r2'']"
    by (simp add: getRoutineChecks_def ex_toggle_once exClock_today)
  show ?thesis
    by (simp add: toggleRoutineCheck_eq
          [of exClock True "''r2''" "toggleRoutineCheck exClock True ''r2'' exStorage"] g)
       (simp add: saveRoutineChecks_def Let_def ex_toggle_once
          exClock_today exClock_weekAgo parseDateOnly_def msPerDay_def)
qed

text \<open>
  On the example the routine toggled is the one checked off for the day.
\<close>

theorem toggle_twice_restores_today_witness:
  "routineChecksItem exStorage \<noteq> Unparsable
   \<and> getTodayString exClock = getTodayString exClock
   \<and> count_list (getRoutineChecks exClock exStorage) ''r1'' \<le> 1
   \<and> (''r1'' \<in> set (getRoutineChecks exClock (toggleRoutineCheck exClock True ''r1'' exStorage)))
           = (''r1'' \<notin> set (getRoutineChecks exClock exStorage))
   \<and> mset (getRoutineChecks exClock
         (toggleRoutineCheck exClock True ''r1''
            (toggleRoutineCheck exClock True ''r1'' exStorage)))
           = mset (getRoutineChecks exClock exStorage)
   \<and> toggleRoutineCheck exClock False ''r1'' exStorage = exStorage"
proof -
  have h1: "routineChecksItem exStorage \<noteq> Unparsable"
    by (simp add: exStorage_def)
  have h2: "getTodayString exClock = getTodayString exClock" ..
  have h3: "count_list (getRoutineChecks exClock exStorage) ''r1'' \<le> 1"
    by (simp add: ex_getRoutineChecks)
  from h1 h3 toggle_twice_restores_today [OF h1 h2 h3] show ?thesis
    by blast
qed

text \<open>
  Claim C7 as stated fails on the example: after two toggles of the same routine on the
  same day the log has lost the keys of the days 90, 92 and 93.
\<close>

theorem toggle_twice_log_counterexample:
  "routineChecksItem exStorage
     = Parsed [(90, [''r1'']), (92, [''r2'']), (93, [''r1'']), (94, []), (100, [''r1''])]
   \<and> routineChecksItem
       (toggleRoutineCheck exClock True ''r2''
          (toggleRoutineCheck exClock True ''r2'' exStorage))
     = Parsed [(94, []), (100, [''r1''])]"
  by (simp add: ex_toggle_twice) (simp add: exStorage_def exChecks_def)

section \<open>Installing the offline cache\<close>

lemma fetchAll_Inr:
  "fetchAll pf urls = Inr rs \<Longrightarrow>
   map fst rs = urls \<and> list_all (\<lambda>(url, r). fetchAsset pf url = Inr r) rs"
proof (induction urls arbitrary: rs)
  case Nil
  then show ?case by simp
next
  case (Cons url urls)
  then show ?case by (auto split: sum.splits)
qed

lemma fetchAll_Inl:
  "fetchAll pf urls = Inl e \<Longrightarrow> \<exists>url \<in> set urls. fetchAsset pf url = Inl e"
proof (induction urls)
  case Nil
  then show ?case by simp
next
  case (Cons url urls)
  then show ?case by (auto split: sum.splits)
qed

lemma fetchAll_total:
  "list_all (\<lambda>url. \<exists>r. fetchAsset pf url = Inr r) urls \<Longrightarrow> \<exists>rs. fetchAll pf urls = Inr rs"
  by (induction urls) auto

lemma putAll_Inl:
  "putAll pf rs c = Inl e \<Longrightarrow> \<exists>url \<in> set (map fst rs). \<not> storable pf url \<and> e = QuotaError url"
proof (induction rs arbitrary: c)
  case Nil
  then show ?case by simp
next
  case (Cons p rs)
  then show ?case by (cases p) (auto split: if_splits)
qed

lemma putAll_keeps:
  "putAll pf rs c = Inr c' \<Longrightarrow> url \<notin> set (map fst rs) \<Longrightarrow> c' url = c url"
proof (induction rs arbitrary: c)
  case Nil
  then show ?case by simp
next
  case (Cons p rs)
  then show ?case by (cases p) (auto split: if_splits)
qed

lemma putAll_Inr:
  "putAll pf rs c = Inr c' \<Longrightarrow> (url, r) \<in> set rs \<Longrightarrow>
   list_all (\<lambda>(u, r'). fetchAsset pf u = Inr r') rs \<Longrightarrow>
   storable pf url \<and> c' url = Some r"
proof (induction rs arbitrary: c url r)
  case Nil
  then show ?case by simp
next
  case (Cons p rs)
  obtain u r' where p: "p = (u, r')" by (cases p)
  from Cons.prems(1) p have st: "storable pf u" and rest: "putAll pf rs (c(u \<mapsto> r')) = Inr c'"
    by (auto split: if_splits)
  from Cons.prems(3) p have fu: "fetchAsset pf u = Inr r'"
    and all: "list_all (\<lambda>(u, r'). fetchAsset pf u = Inr r') rs"
    by simp_all
  show ?case
  proof (cases "(url, r) \<in> set rs")
    case True
    then show ?thesis by (rule Cons.IH [OF rest _ all])
  next
    case False
    with Cons.prems(2) p have eq: "url = u" "r = r'" by simp_all
    show ?thesis
    proof (cases "u \<in> set (map fst rs)")
      case True
      then obtain r2 where in2: "(u, r2) \<in> set rs" by auto
      with all have "fetchAsset pf u = Inr r2" by (auto simp add: list_all_iff)
      with fu have "r2 = r'" by simp
      with Cons.IH [OF rest in2 all] eq show ?thesis by simp
    next
      case False
      from putAll_keeps [OF rest False] st eq show ?thesis by simp
    qed
  qed
qed

lemma thenP_Fulfilled:
  "thenP p f w = (Fulfilled v, w') \<Longrightarrow>
   \<exists>x w1. p w = (Fulfilled x, w1) \<and> f x w1 = (Fulfilled v, w')"
  by (auto simp add: thenP_def split: prod.splits outcome.splits)

lemma thenP_Rejected:
  "thenP p f w = (Rejected e, w') \<Longrightarrow>
   p w = (Rejected e, w') \<or> (\<exists>x w1. p w = (Fulfilled x, w1) \<and> f x w1 = (Rejected e, w'))"
  by (auto simp add: thenP_def split: prod.splits outcome.splits)

lemma cacheAddAll_Fulfilled:
  assumes "cacheAddAll pf name urls w = (Fulfilled v, w')"
      and "url \<in> set urls"
  shows "\<exists>r. fetchAsset pf url = Inr r \<and> storable pf url \<and> cachedResponse w' name url = Some r"
proof -
  from assms(1) obtain rs c' where
    f: "fetchAll pf urls = Inr rs" and
    p: "putAll pf rs (case caches w name of None \<Rightarrow> Map.empty | Some c \<Rightarrow> c) = Inr c'" and
    w': "w' = w\<lparr>caches := (caches w)(name \<mapsto> c')\<rparr>"
    by (auto simp add: cacheAddAll_def split: sum.splits)
  from fetchAll_Inr [OF f] have keys: "map fst rs = urls"
    and all: "list_all (\<lambda>(url, r). fetchAsset pf url = Inr r) rs"
    by simp_all
  from assms(2) keys obtain r where mem: "(url, r) \<in> set rs" by force
  with all have "fetchAsset pf url = Inr r" by (auto simp add: list_all_iff)
  moreover from putAll_Inr [OF p mem all] have "storable pf url" "c' url = Some r" by simp_all
  ultimately show ?thesis by (simp add: w' cachedResponse_def)
qed

lemma cacheAddAll_Rejected:
  assumes "cacheAddAll pf name urls w = (Rejected e, w')"
  shows "\<exists>url \<in> set urls. fetchAsset pf url = Inl e \<or> (\<not> storable pf url \<and> e = QuotaError url)"
proof (cases "fetchAll pf urls")
  case (Inl e')
  with assms have "e' = e" by (simp add: cacheAddAll_def)
  with fetchAll_Inl [OF Inl] show ?thesis by auto
next
  case (Inr rs)
  with assms have "putAll pf rs (case caches w name of None \<Rightarrow> Map.empty | Some c \<Rightarrow> c) = Inl e"
    by (auto simp add: cacheAddAll_def split: sum.splits)
  from putAll_Inl [OF this] fetchAll_Inr [OF Inr] show ?thesis by auto
qed

lemma installPromise_Fulfilled:
  assumes "installPromise pf w = (Fulfilled v, w')"
      and "url \<in> set ASSETS_TO_CACHE"
  shows "\<exists>r. fetchAsset pf url = Inr r \<and> storable pf url
             \<and> cachedResponse w' CACHE_NAME url = Some r"
proof -
  from assms(1) obtain x w1 where
    a: "thenP (cachesOpen pf CACHE_NAME) (\<lambda>cache. cacheAddAll pf cache ASSETS_TO_CACHE) w
          = (Fulfilled x, w1)" and
    s: "skipWaiting w1 = (Fulfilled v, w')"
    unfolding installPromise_def by (blast dest: thenP_Fulfilled)
  from thenP_Fulfilled [OF a] obtain name w0 where
    o: "cachesOpen pf CACHE_NAME w = (Fulfilled name, w0)" and
    c: "cacheAddAll pf name ASSETS_TO_CACHE w0 = (Fulfilled x, w1)"
    by blast
  from o have name: "name = CACHE_NAME"
    by (auto simp add: cachesOpen_def split: if_splits)
  from s have w': "w' = w1\<lparr>skippedWaiting := True\<rparr>"
    by (auto simp add: skipWaiting_def)
  from cacheAddAll_Fulfilled [OF c assms(2)] show ?thesis
    by (simp add: name w' cachedResponse_def)
qed

lemma installPromise_Rejected:
  assumes "installPromise pf w = (Rejected e, w')"
  shows "(\<not> storageAvailable pf \<and> e = CacheOpenError)
         \<or> (\<exists>url \<in> set ASSETS_TO_CACHE.
               fetchAsset pf url = Inl e \<or> (\<not> storable pf url \<and> e = QuotaError url))"
proof -
  from thenP_Rejected [OF assms [unfolded installPromise_def]]
  have "thenP (cachesOpen pf CACHE_NAME) (\<lambda>cache. cacheAddAll pf cache ASSETS_TO_CACHE) w
          = (Rejected e, w')"
    by (auto simp add: skipWaiting_def)
  from thenP_Rejected [OF this] show ?thesis
  proof
    assume "cachesOpen pf CACHE_NAME w = (Rejected e, w')"
    then show ?thesis by (auto simp add: cachesOpen_def split: if_splits)
  next
    assume "\<exists>x w1. cachesOpen pf CACHE_NAME w = (Fulfilled x, w1)
              \<and> cacheAddAll pf x ASSETS_TO_CACHE w1 = (Rejected e, w')"
    then obtain x w1 where "cacheAddAll pf x ASSETS_TO_CACHE w1 = (Rejected e, w')" by blast
    from cacheAddAll_Rejected [OF this] show ?thesis by blast
  qed
qed

lemma installPromise_Rejected_waiting:
  "installPromise pf w = (Rejected e, w') \<Longrightarrow> skippedWaiting w' = skippedWaiting w"
  by (auto simp add: installPromise_def thenP_def cachesOpen_def cacheAddAll_def skipWaiting_def
        split: prod.splits outcome.splits if_splits sum.splits)

lemma putAll_total:
  "list_all (storable pf) (map fst rs) \<Longrightarrow> \<exists>c'. putAll pf rs c = Inr c'"
proof (induction rs arbitrary: c)
  case Nil
  then show ?case by simp
next
  case (Cons p rs)
  then show ?case by (cases p) simp
qed

lemma installPromise_total:
  assumes "storageAvailable pf"
      and "\<forall>url \<in> set ASSETS_TO_CACHE. (\<exists>r. fetchAsset pf url = Inr r) \<and> storable pf url"
  shows "\<exists>w'. installPromise pf w = (Fulfilled (), w') \<and> skippedWaiting w'"
proof -
  from assms(2) have "list_all (\<lambda>url. \<exists>r. fetchAsset pf url = Inr r) ASSETS_TO_CACHE"
    by (simp add: list_all_iff)
  then obtain rs where f: "fetchAll pf ASSETS_TO_CACHE = Inr rs"
    by (blast dest: fetchAll_total)
  from fetchAll_Inr [OF f] assms(2) have "list_all (storable pf) (map fst rs)"
    by (simp add: list_all_iff)
  from putAll_total [OF this] obtain c' where
    "putAll pf rs (case caches w CACHE_NAME of None \<Rightarrow> Map.empty | Some c \<Rightarrow> c) = Inr c'"
    by blast
  with f assms(1) show ?thesis
    by (simp add: installPromise_def thenP_def cachesOpen_def cacheAddAll_def skipWaiting_def)
qed

lemma onInstall_cases:
  "(\<exists>v. installPromise pf w = (Fulfilled v, snd (onInstall pf w)) \<and> fst (onInstall pf w) = Installed)
   \<or> (\<exists>e. installPromise pf w = (Rejected e, snd (onInstall pf w))
           \<and> fst (onInstall pf w) = InstallFailed e)"
  by (auto simp add: onInstall_def split: prod.splits outcome.splits)

text \<open>
  Claim C9. The installation succeeds only if every asset of the manifest has been
  fetched and stored in the cache of the current version. If the fetch or the storing of
  any single asset fails (a fetch fails on a network error, on a status that is not
  between 200 and 299 or is 206, or on a \<^verbatim>\<open>Vary\<close> header with the value \<^verbatim>\<open>*\<close>), the
  installation fails with an underlying error (that of an asset of the manifest, or that
  of opening the cache) and the worker does not skip waiting. When the cache can be
  opened and every asset can be fetched and stored, the installation succeeds.
\<close>

theorem install_all_or_nothing:
  "(fst (onInstall pf w) = Installed \<longrightarrow>
      (\<forall>url \<in> set ASSETS_TO_CACHE. \<exists>r. fetchAsset pf url = Inr r \<and> storable pf url
          \<and> cachedResponse (snd (onInstall pf w)) CACHE_NAME url = Some r))
   \<and> ((\<exists>url \<in> set ASSETS_TO_CACHE. (\<exists>e. fetchAsset pf url = Inl e) \<or> \<not> storable pf url) \<longrightarrow>
      (\<exists>e. fst (onInstall pf w) = InstallFailed e
          \<and> skippedWaiting (snd (onInstall pf w)) = skippedWaiting w
          \<and> ((\<not> storageAvailable pf \<and> e = CacheOpenError)
               \<or> (\<exists>url \<in> set ASSETS_TO_CACHE.
                     fetchAsset pf url = Inl e \<or> (\<not> storable pf url \<and> e = QuotaError url)))))
   \<and> (storageAvailable pf
        \<and> (\<forall>url \<in> set ASSETS_TO_CACHE. (\<exists>r. fetchAsset pf url = Inr r) \<and> storable pf url) \<longrightarrow>
      fst (onInstall pf w) = Installed \<and> skippedWaiting (snd (onInstall pf w)))"
proof (intro conjI impI; (elim conjE)?)
  assume "fst (onInstall pf w) = Installed"
  with onInstall_cases [of pf w] obtain v where
    "installPromise pf w = (Fulfilled v, snd (onInstall pf w))" by auto
  then show "\<forall>url \<in> set ASSETS_TO_CACHE. \<exists>r. fetchAsset pf url = Inr r \<and> storable pf url
          \<and> cachedResponse (snd (onInstall pf w)) CACHE_NAME url = Some r"
    by (blast dest: installPromise_Fulfilled)
next
  assume bad: "\<exists>url \<in> set ASSETS_TO_CACHE. (\<exists>e. fetchAsset pf url = Inl e) \<or> \<not> storable pf url"
  have "fst (onInstall pf w) \<noteq> Installed"
  proof
    assume "fst (onInstall pf w) = Installed"
    with onInstall_cases [of pf w] obtain v where
      "installPromise pf w = (Fulfilled v, snd (onInstall pf w))" by auto
    from installPromise_Fulfilled [OF this] bad show False by fastforce
  qed
  with onInstall_cases [of pf w] obtain e where
    rej: "installPromise pf w = (Rejected e, snd (onInstall pf w))" and
    res: "fst (onInstall pf w) = InstallFailed e" by auto
  have sk: "skippedWaiting (snd (onInstall pf w)) = skippedWaiting w"
    using rej by (rule installPromise_Rejected_waiting)
  from installPromise_Rejected [OF rej] res sk
  show "\<exists>e. fst (onInstall pf w) = InstallFailed e
          \<and> skippedWaiting (snd (onInstall pf w)) = skippedWaiting w
          \<and> ((\<not> storageAvailable pf \<and> e = CacheOpenError)
               \<or> (\<exists>url \<in> set ASSETS_TO_CACHE.
                     fetchAsset pf url = Inl e \<or> (\<not> storable pf url \<and> e = QuotaError url)))"
    by blast
next
  assume "storageAvailable pf"
    and "\<forall>url \<in> set ASSETS_TO_CACHE. (\<exists>r. fetchAsset pf url = Inr r) \<and> storable pf url"
  then obtain w' where "installPromise pf w = (Fulfilled (), w')" and "skippedWaiting w'"
    by (blast dest: installPromise_total)
  then show "fst (onInstall pf w) = Installed" and "skippedWaiting (snd (onInstall pf w))"
    by (simp_all add: onInstall_def)
qed

lemma ex_assets_online:
  "\<forall>url \<in> set ASSETS_TO_CACHE. (\<exists>r. fetchAsset exOnline url = Inr r) \<and> storable exOnline url"
  by (simp add: fetchAsset_def exOnline_def exResponse_def)

lemma ex_asset_missing:
  "fetchAsset exMissingAsset ''/holidays.js'' = Inl (NetworkError ''/holidays.js'')"
  by (simp add: fetchAsset_def exMissingAsset_def)

lemma ex_asset_partial:
  "fetchAsset exPartialContent ''/styles.css'' = Inl (BadStatus ''/styles.css'' 206)"
  by (simp add: fetchAsset_def exPartialContent_def)

text \<open>
  With the network up every asset ends in the cache and the installation succeeds; with
  one asset missing from the network it fails, and so it does when one asset is answered
  with status 206.
\<close>

theorem install_all_or_nothing_witness:
  "(fst (onInstall exOnline exWorker) = Installed
    \<and> skippedWaiting (snd (onInstall exOnline exWorker))
    \<and> list_all (\<lambda>url. \<exists>r. fetchAsset exOnline url = Inr r \<and> storable exOnline url
          \<and> cachedResponse (snd (onInstall exOnline exWorker)) CACHE_NAME url = Some r)
        ASSETS_TO_CACHE)
   \<and> (''/holidays.js'' \<in> set ASSETS_TO_CACHE
    \<and> fetchAsset exMissingAsset ''/holidays.js'' = Inl (NetworkError ''/holidays.js'')
    \<and> (\<exists>e. fst (onInstall exMissingAsset exWorker) = InstallFailed e
          \<and> skippedWaiting (snd (onInstall exMissingAsset exWorker)) = skippedWaiting exWorker))
   \<and> (''/styles.css'' \<in> set ASSETS_TO_CACHE
    \<and> fetchAsset exPartialContent ''/styles.css'' = Inl (BadStatus ''/styles.css'' 206)
    \<and> (\<exists>e. fst (onInstall exPartialContent exWorker) = InstallFailed e
          \<and> skippedWaiting (snd (onInstall exPartialContent exWorker)) = skippedWaiting exWorker))"
proof -
  have av: "storageAvailable exOnline" by (simp add: exOnline_def)
  from install_all_or_nothing [of exOnline exWorker] av ex_assets_online
  have ok: "fst (onInstall exOnline exWorker) = Installed"
    and sk: "skippedWaiting (snd (onInstall exOnline exWorker))"
    by blast+
  from install_all_or_nothing [of exOnline exWorker] ok
  have all: "list_all (\<lambda>url. \<exists>r. fetchAsset exOnline url = Inr r \<and> storable exOnline url
          \<and> cachedResponse (snd (onInstall exOnline exWorker)) CACHE_NAME url = Some r)
        ASSETS_TO_CACHE"
    unfolding list_all_iff by blast
  have mem: "''/holidays.js'' \<in> set ASSETS_TO_CACHE"
    by (simp add: ASSETS_TO_CACHE_def)
  with ex_asset_missing
  have "\<exists>url \<in> set ASSETS_TO_CACHE.
          (\<exists>e. fetchAsset exMissingAsset url = Inl e) \<or> \<not> storable exMissingAsset url"
    by blast
  with install_all_or_nothing [of exMissingAsset exWorker]
  have failed: "\<exists>e. fst (onInstall exMissingAsset exWorker) = InstallFailed e
          \<and> skippedWaiting (snd (onInstall exMissingAsset exWorker)) = skippedWaiting exWorker"
    by blast
  have mem': "''/styles.css'' \<in> set ASSETS_TO_CACHE"
    by (simp add: ASSETS_TO_CACHE_def)
  with ex_asset_partial
  have "\<exists>url \<in> set ASSETS_TO_CACHE.
          (\<exists>e. fetchAsset exPartialContent url = Inl e) \<or> \<not> storable exPartialContent url"
    by blast
  with install_all_or_nothing [of exPartialContent exWorker]
  have failed': "\<exists>e. fst (onInstall exPartialContent exWorker) = InstallFailed e
          \<and> skippedWaiting (snd (onInstall exPartialContent exWorker)) = skippedWaiting exWorker"
    by blast
  show ?thesis
    by (intro conjI ok sk all mem ex_asset_missing failed mem' ex_asset_partial failed')
qed

end
